theory Spec2Isabelle
  imports Complex_Main "HOL-Library.Char_ord" "HOL-Library.List_Lexorder"
    "HOL-Library.Product_Lexorder" "HOL-Library.Sublist" "HOL-Library.Multiset"
begin

section \<open>Data model\<close>

text \<open>
  The floor-price estimator works on a table of NFT trades. A row of the table that
  \<open>create_lookback\<close> selects has the six columns below. A value of Python's \<open>float\<close>
  (IEEE double) is modelled by the \<^typ>\<open>real\<close> it stands for. The one non-finite
  value the code can produce from finite input, \<open>nan\<close>, is a constructor of its own in
  \<open>pyfloat\<close>; overflow to infinity is outside the model.
\<close>

record trade =
  chain_id :: int
  contract_address :: string
  ds :: string
  block_number :: int
  unix_timestamp :: int
  log_price :: real

record lookback_trade = trade +
  log_prices_lookback :: "real list"
  trade_id :: nat

datatype pyfloat = NaN | Num real

datatype error = ValueError

section \<open>Double arithmetic\<close>

text \<open>
  The result of an arithmetic operation on doubles is its exact result rounded to the
  nearest double, ties to the even mantissa: a double is an integer of magnitude below
  \<open>2^53\<close> times a power of two, no smaller than \<open>2^-1074\<close>. \<open>float64 x\<close> is the double
  nearest to \<open>x\<close>.
\<close>

definition round_even :: "real \<Rightarrow> int" where
  "round_even r =
     (let f = \<lfloor>r\<rfloor>
      in if r - of_int f < 1 / 2 then f
         else if 1 / 2 < r - of_int f then f + 1
         else if even f then f else f + 1)"

definition float64 :: "real \<Rightarrow> real" where
  "float64 x =
     (if x = 0 then 0
      else (let e = max (\<lfloor>log 2 \<bar>x\<bar>\<rfloor> - 52) (- 1074)
            in of_int (round_even (x / 2 powr of_int e)) * 2 powr of_int e))"

section \<open>Positional slicing\<close>

text \<open>
  Python's slice \<open>xs[start:stop]\<close>, which \<open>DataFrame.iloc\<close> follows: a negative bound
  counts from the end, and every bound is clipped to the length.
\<close>

definition py_bound :: "nat \<Rightarrow> int \<Rightarrow> nat" where
  "py_bound n i = (if i < 0 then nat (max 0 (int n + i)) else min n (nat i))"

definition iloc_slice :: "'a list \<Rightarrow> int \<Rightarrow> int \<Rightarrow> 'a list" where
  "iloc_slice xs start stop =
     (let a = py_bound (length xs) start; b = py_bound (length xs) stop
      in take (b - a) (drop a xs))"

definition iloc_from :: "'a list \<Rightarrow> int \<Rightarrow> 'a list" where
  "iloc_from xs start = drop (py_bound (length xs) start) xs"

section \<open>\<open>create_lookback\<close>\<close>

text \<open>
  \<open>data.block_number.astype("int64")\<close> keeps a value of the 64-bit signed range and
  wraps any other integer into it.
\<close>

definition astype_int64 :: "int \<Rightarrow> int" where
  "astype_int64 b = (b + 2 ^ 63) mod 2 ^ 64 - 2 ^ 63"

definition astype_block_number :: "trade \<Rightarrow> trade" where
  "astype_block_number t = t\<lparr>block_number := astype_int64 (block_number t)\<rparr>"

text \<open>
  \<open>sort_values("block_number")\<close> uses the library's default sort, which is not stable:
  the rows come out in ascending order of block number, and the order of rows with
  equal block numbers is not specified. The model takes that order from a parameter:
  rows with equal block numbers are ordered by \<open>tie_order data i\<close>, for their position
  \<open>i\<close> in \<open>data\<close> (and by position where that is equal too). Whatever the parameter,
  the result is a permutation of the rows in ascending order of block number.
\<close>

definition sort_values :: "(trade list \<Rightarrow> nat \<Rightarrow> nat) \<Rightarrow> trade list \<Rightarrow> trade list" where
  "sort_values tie_order data =
     map snd (sort_key (\<lambda>(i, t). (block_number t, tie_order data i)) (enumerate 0 data))"

text \<open>Two orders of ties: as in the input, and reversed.\<close>

definition input_order :: "trade list \<Rightarrow> nat \<Rightarrow> nat" where
  "input_order data i = i"

definition reverse_order :: "trade list \<Rightarrow> nat \<Rightarrow> nat" where
  "reverse_order data i = length data - i"

text \<open>
  The loop \<open>for idx in range(result.shape[0])\<close> appends one window and one trade id per
  row; the two accumulated lists become the two new columns, row by row.
\<close>

definition lookback_step ::
  "trade list \<Rightarrow> int \<Rightarrow> nat \<Rightarrow> real list list \<times> nat list \<Rightarrow> real list list \<times> nat list" where
  "lookback_step result lookback idx acc =
     (case acc of (lookback_prices, trade_ids) \<Rightarrow>
        (lookback_prices @
           [if idx = 0 then [- 42]
            else (let idx_start = max 0 (int idx - lookback)
                  in map log_price (iloc_slice result idx_start (int idx)))],
         trade_ids @ [idx]))"

definition with_columns :: "trade \<Rightarrow> real list \<Rightarrow> nat \<Rightarrow> lookback_trade" where
  "with_columns t w i =
     \<lparr>chain_id = chain_id t, contract_address = contract_address t, ds = ds t,
      block_number = block_number t, unix_timestamp = unix_timestamp t,
      log_price = log_price t, log_prices_lookback = w, trade_id = i\<rparr>"

definition create_lookback ::
  "(trade list \<Rightarrow> nat \<Rightarrow> nat) \<Rightarrow> trade list \<Rightarrow> int \<Rightarrow> lookback_trade list" where
  "create_lookback tie_order data lookback =
     (let result = sort_values tie_order (map astype_block_number data);
          cols = fold (lookback_step result lookback) [0..<length result] ([], [])
      in map (\<lambda>(t, w, i). with_columns t w i) (zip result (zip (fst cols) (snd cols))))"

section \<open>\<open>compute_new_quantile\<close>\<close>

definition compute_new_quantile :: "real \<Rightarrow> real \<Rightarrow> real \<Rightarrow> real \<Rightarrow> real \<Rightarrow> real \<Rightarrow> real" where
  "compute_new_quantile q_curr q_target q_obs speed pct_target_min pct_target_max =
     min pct_target_max (max pct_target_min (q_curr + speed * (q_target - q_obs)))"

text \<open>
  The specification's words for the same function: the value \<open>x\<close> clamped to the
  interval from \<open>lo\<close> to \<open>hi\<close>.
\<close>

definition spec_clamp :: "real \<Rightarrow> real \<Rightarrow> real \<Rightarrow> real" where
  "spec_clamp x lo hi = (if x < lo then lo else if hi < x then hi else x)"

section \<open>\<open>compute_quantile\<close>\<close>

text \<open>
  \<open>float(pd.Series(np.array(array)).dropna().quantile(quantile))\<close>. The library function
  \<open>Series.quantile\<close> first validates the quantile (a \<open>ValueError\<close> outside \<open>[0, 1]\<close>),
  returns \<open>nan\<close> on a series without values, and otherwise interpolates linearly
  between the two order statistics around position \<open>(n - 1) * q\<close>.
\<close>

definition dropna :: "pyfloat list \<Rightarrow> real list" where
  "dropna xs = concat (map (\<lambda>x. case x of NaN \<Rightarrow> [] | Num v \<Rightarrow> [v]) xs)"

definition quantile_linear :: "real list \<Rightarrow> real \<Rightarrow> real" where
  "quantile_linear xs q =
     (let s = sort xs;
          h = real (length s - 1) * q;
          lo = nat \<lfloor>h\<rfloor>;
          hi = nat \<lceil>h\<rceil>
      in s ! lo + (h - real lo) * (s ! hi - s ! lo))"

definition compute_quantile :: "pyfloat list \<Rightarrow> real \<Rightarrow> error + pyfloat" where
  "compute_quantile array quantile =
     (let xs = dropna array
      in if quantile < 0 \<or> 1 < quantile then Inl ValueError
         else if xs = [] then Inr NaN
         else Inr (Num (quantile_linear xs quantile)))"

section \<open>\<open>remove_outliers\<close>\<close>

text \<open>
  \<open>np.median\<close>: the middle element of the sorted values, or the mean of the two middle
  ones, their rounded sum divided by 2. \<open>scipy.stats.median_abs_deviation\<close> with its
  defaults (centre \<open>np.median\<close>, scale 1): the median of the absolute values of the
  rounded differences \<open>x - med\<close>.
\<close>

definition np_median :: "real list \<Rightarrow> real" where
  "np_median a =
     (let s = sort a; n = length s
      in if odd n then s ! (n div 2)
         else float64 (float64 (s ! (n div 2 - 1) + s ! (n div 2)) / 2))"

definition median_abs_deviation :: "real list \<Rightarrow> real" where
  "median_abs_deviation x =
     (let med = np_median x in np_median (map (\<lambda>v. \<bar>float64 (v - med)\<bar>) x))"

text \<open>
  On an empty array both library calls return \<open>nan\<close> and the comprehension runs over no
  element, so the result is the empty list; that case is the first branch. The product
  \<open>3 * array_mad\<close>, the difference and the sum are rounded to doubles.
\<close>

definition remove_outliers :: "real list \<Rightarrow> real list" where
  "remove_outliers array =
     (if array = [] then []
      else (let array_median = np_median array;
                array_mad = median_abs_deviation array;
                lb = float64 (array_median - float64 (3 * array_mad));
                ub = float64 (array_median + float64 (3 * array_mad))
            in filter (\<lambda>elem. elem \<ge> lb \<and> elem \<le> ub) array))"

text \<open>
  The specification's words for the same function, with the arithmetic as a parameter
  \<open>r\<close>, the rounding applied to the result of every operation: the identity for exact
  arithmetic, \<^const>\<open>float64\<close> for the arithmetic of doubles. The \<open>k\<close>-th smallest
  value (from 0) is the value with at most \<open>k\<close> values below it and more than \<open>k\<close>
  values not above it; the median is the middle one, or the mean of the two middle
  ones; the MAD is the median of the absolute deviations from the median; the values
  kept are those from \<open>median - 3 * MAD\<close> to \<open>median + 3 * MAD\<close>, bounds included.
\<close>

definition kth_smallest :: "real list \<Rightarrow> nat \<Rightarrow> real" where
  "kth_smallest xs k =
     (case filter (\<lambda>v. length (filter (\<lambda>x. x < v) xs) \<le> k \<and>
                       k < length (filter (\<lambda>x. x \<le> v) xs)) xs of
        [] \<Rightarrow> 0
      | v # _ \<Rightarrow> v)"

definition spec_median :: "(real \<Rightarrow> real) \<Rightarrow> real list \<Rightarrow> real" where
  "spec_median r xs =
     (if odd (length xs) then kth_smallest xs (length xs div 2)
      else r (r (kth_smallest xs (length xs div 2 - 1) + kth_smallest xs (length xs div 2)) / 2))"

definition spec_mad :: "(real \<Rightarrow> real) \<Rightarrow> real list \<Rightarrow> real" where
  "spec_mad r xs = spec_median r (map (\<lambda>x. \<bar>r (x - spec_median r xs)\<bar>) xs)"

definition spec_remove_outliers :: "(real \<Rightarrow> real) \<Rightarrow> real list \<Rightarrow> real list" where
  "spec_remove_outliers r xs =
     filter (\<lambda>x. r (spec_median r xs - r (3 * spec_mad r xs)) \<le> x \<and>
                 x \<le> r (spec_median r xs + r (3 * spec_mad r xs))) xs"

section \<open>The orchestrator\<close>

definition LOOKBACK :: int where "LOOKBACK = 140"
definition BACKTEST :: int where "BACKTEST = 800"
definition PCT_TARGET :: real where "PCT_TARGET = 5 / 100"
definition PCT_TARGET_MIN :: real where "PCT_TARGET_MIN = 2 / 100"
definition PCT_TARGET_MAX :: real where "PCT_TARGET_MAX = 1 / 10"
definition SPEED :: real where "SPEED = 5 / 10"

text \<open>
  The model of \<open>main\<close> starts at the table of trades with positive price and their
  \<open>log_price\<close> column (reading the file and taking the logarithm come before).

  The table is sorted by collection and block number (a stable sort on several columns).
  \<open>groupby(...)["block_number"].rank(method="first", ascending=False)\<close> gives every row
  its rank inside its collection: one more than the number of rows of the collection
  with a larger block number, ties ranked in the order in which they appear. Rows
  whose rank is below \<open>BACKTEST + LOOKBACK * 2\<close> are kept.
\<close>

definition same_group :: "trade \<Rightarrow> trade \<Rightarrow> bool" where
  "same_group u t = (chain_id u = chain_id t \<and> contract_address u = contract_address t)"

definition sort_frame :: "trade list \<Rightarrow> trade list" where
  "sort_frame df = sort_key (\<lambda>t. (chain_id t, contract_address t, block_number t)) df"

fun rank_first_desc :: "trade list \<Rightarrow> trade list \<Rightarrow> nat list" where
  "rank_first_desc earlier [] = []"
| "rank_first_desc earlier (t # rest) =
     (1 + length (filter (\<lambda>u. same_group u t \<and> block_number u > block_number t) (earlier @ rest))
        + length (filter (\<lambda>u. same_group u t \<and> block_number u = block_number t) earlier))
     # rank_first_desc (earlier @ [t]) rest"

definition restrict_recent :: "trade list \<Rightarrow> int \<Rightarrow> int \<Rightarrow> trade list" where
  "restrict_recent df backtest lookback =
     map fst (filter (\<lambda>(t, rank). int rank < backtest + lookback * 2)
                (zip df (rank_first_desc [] df)))"

text \<open>
  The steps after the restriction work row by row or collection by collection;
  \<open>main_group\<close> is what they do to the rows of one collection. An exception raised for
  any row ends the run: results are sums, \<open>Inl\<close> the exception.
\<close>

fun sequence_sum :: "('e + 'a) list \<Rightarrow> 'e + 'a list" where
  "sequence_sum [] = Inr []"
| "sequence_sum (x # xs) =
     (case x of
        Inl e \<Rightarrow> Inl e
      | Inr v \<Rightarrow> (case sequence_sum xs of Inl e \<Rightarrow> Inl e | Inr vs \<Rightarrow> Inr (v # vs)))"

definition py_le :: "real \<Rightarrow> pyfloat \<Rightarrow> bool" where
  "py_le a b = (case b of NaN \<Rightarrow> False | Num v \<Rightarrow> a \<le> v)"

definition np_exp :: "pyfloat \<Rightarrow> pyfloat" where
  "np_exp x = (case x of NaN \<Rightarrow> NaN | Num v \<Rightarrow> Num (exp v))"

definition main_group ::
  "(trade list \<Rightarrow> nat \<Rightarrow> nat) \<Rightarrow> trade list \<Rightarrow> error + (string \<times> pyfloat) list" where
  "main_group tie_order g =
     (let lb = create_lookback tie_order g LOOKBACK;
          bt = iloc_from lb (- BACKTEST);
          no_outliers = map (\<lambda>x. remove_outliers (log_prices_lookback x)) bt
      in case sequence_sum (map (\<lambda>w. compute_quantile (map Num w) PCT_TARGET) no_outliers) of
           Inl e \<Rightarrow> Inl e
         | Inr target_quantile \<Rightarrow>
             (let price_smaller = map (\<lambda>(x, q). py_le (log_price x) q) (zip bt target_quantile);
                  quantile_obs = real (length (filter (\<lambda>b. b) price_smaller))
                                 / real (length price_smaller);
                  quantile_adj = compute_new_quantile PCT_TARGET PCT_TARGET quantile_obs SPEED
                                   PCT_TARGET_MIN PCT_TARGET_MAX
              in case sequence_sum (map (\<lambda>w. compute_quantile (map Num w) quantile_adj)
                                      no_outliers) of
                   Inl e \<Rightarrow> Inl e
                 | Inr log_price_adj \<Rightarrow>
                     Inr (map (\<lambda>(x, a). (contract_address x, np_exp a))
                            (iloc_from (zip bt log_price_adj) (- 1)))))"

definition group_key :: "trade \<Rightarrow> int \<times> string" where
  "group_key t = (chain_id t, contract_address t)"

text \<open>
  On a table without rows, the row-wise \<open>apply\<close> of the outlier step returns a table
  instead of a column, and assigning it to the new column raises \<open>ValueError\<close>.
\<close>

definition main ::
  "(trade list \<Rightarrow> nat \<Rightarrow> nat) \<Rightarrow> trade list \<Rightarrow> error + (string \<times> pyfloat) list" where
  "main tie_order nft_trades_df =
     (let df = restrict_recent (sort_frame nft_trades_df) BACKTEST LOOKBACK;
          keys = sort (remdups (map group_key df))
      in if df = [] then Inl ValueError
         else (case sequence_sum
                      (map (\<lambda>k. main_group tie_order (filter (\<lambda>t. group_key t = k) df)) keys) of
                 Inl e \<Rightarrow> Inl e
               | Inr per_group \<Rightarrow> Inr (concat per_group)))"

section \<open>Example inputs\<close>

definition mk_trade :: "int \<Rightarrow> real \<Rightarrow> trade" where
  "mk_trade b p =
     \<lparr>chain_id = 1, contract_address = ''0xA'', ds = ''2022-01-01'', block_number = b,
      unix_timestamp = b, log_price = p\<rparr>"

definition collection_1080 :: "trade list" where
  "collection_1080 = map (\<lambda>b. mk_trade b 0) [1..1080]"

section \<open>Properties of \<open>sort_values\<close>\<close>

text \<open>
  Whatever the order of ties, the sorted rows are a permutation of the rows, in
  ascending order of block number; rows in strictly ascending order are left as they
  are.
\<close>

lemma length_sort_values: "length (sort_values tie_order data) = length data"
  by (simp add: sort_values_def)

lemma mset_sort_values: "mset (sort_values tie_order data) = mset data"
proof -
  have "mset (sort_values tie_order data) = image_mset snd (mset (enumerate 0 data))"
    by (simp add: sort_values_def)
  also have "\<dots> = mset (map snd (enumerate 0 data))"
    by (simp only: mset_map)
  finally show ?thesis by simp
qed

lemma sorted_sort_values: "sorted (map block_number (sort_values tie_order data))"
proof -
  let ?f = "\<lambda>(i, t). (block_number t, tie_order data i)"
  let ?ys = "sort_key ?f (enumerate 0 data)"
  have s: "sorted_wrt (\<lambda>x y. ?f x \<le> ?f y) ?ys"
    using sorted_sort_key [of ?f "enumerate 0 data"] by (simp only: sorted_map)
  have "sorted_wrt (\<lambda>x y. block_number (snd x) \<le> block_number (snd y)) ?ys"
    by (rule sorted_wrt_mono_rel [OF _ s]) (auto simp add: less_eq_prod_def)
  then show ?thesis
    by (simp add: sort_values_def sorted_map comp_def)
qed

lemma sort_values_strict:
  assumes "sorted_wrt (<) (map block_number data)"
  shows "sort_values tie_order data = data"
proof -
  let ?f = "\<lambda>(i, t). (block_number t, tie_order data i)"
  have "map ?f (enumerate 0 data) ! i \<le> map ?f (enumerate 0 data) ! j"
    if "i < j" and "j < length (map ?f (enumerate 0 data))" for i j
  proof -
    have "map block_number data ! i < map block_number data ! j"
      using assms that by (simp add: sorted_wrt_iff_nth_less)
    then show ?thesis
      using that by (simp add: nth_enumerate_eq less_eq_prod_def)
  qed
  then have "sorted (map ?f (enumerate 0 data))"
    by (simp only: sorted_iff_nth_mono_less) blast
  then have "sort_key ?f (enumerate 0 data) = enumerate 0 data"
    by (rule sort_key_id_if_sorted)
  then show ?thesis by (simp add: sort_values_def)
qed

text \<open>
  Every order of the rows in which the block numbers ascend is the result for some
  order of ties: the one that ranks each row by its place in that order.
\<close>

lemma takeWhile_position:
  assumes "distinct p" and "a < length p"
  shows "length (takeWhile (\<lambda>j. j \<noteq> p ! a) p) = a"
proof (rule antisym)
  show "length (takeWhile (\<lambda>j. j \<noteq> p ! a) p) \<le> a"
  proof (rule ccontr)
    assume "\<not> length (takeWhile (\<lambda>j. j \<noteq> p ! a) p) \<le> a"
    then have a: "a < length (takeWhile (\<lambda>j. j \<noteq> p ! a) p)" by simp
    then have "takeWhile (\<lambda>j. j \<noteq> p ! a) p ! a \<in> set (takeWhile (\<lambda>j. j \<noteq> p ! a) p)"
      by (rule nth_mem)
    then have "p ! a \<in> set (takeWhile (\<lambda>j. j \<noteq> p ! a) p)"
      using a by (simp add: takeWhile_nth)
    then show False
      by (auto dest: set_takeWhileD)
  qed
  show "a \<le> length (takeWhile (\<lambda>j. j \<noteq> p ! a) p)"
  proof (rule length_takeWhile_less_P_nth)
    show "p ! i \<noteq> p ! a" if "i < a" for i
      using that assms by (simp add: nth_eq_iff_index_eq)
    show "a \<le> length p" using assms(2) by simp
  qed
qed

lemma filter_eq_distinct:
  "distinct zs \<Longrightarrow> k \<in> set zs \<Longrightarrow> filter (\<lambda>x. k = x) zs = [k]"
  by (induction zs) (auto simp add: filter_empty_conv)

lemma sort_values_any_order:
  assumes perm: "mset p = mset [0..<length data]"
    and srt: "sorted (map (\<lambda>i. block_number (data ! i)) p)"
  shows "sort_values (\<lambda>d i. length (takeWhile (\<lambda>j. j \<noteq> i) p)) data = map (\<lambda>i. data ! i) p"
proof -
  let ?pos = "\<lambda>i. length (takeWhile (\<lambda>j. j \<noteq> i) p)"
  let ?f = "\<lambda>(i, t). (block_number t, ?pos i)"
  let ?g = "\<lambda>i. (i, data ! i)"
  let ?ys = "map ?g p"
  have xs: "enumerate 0 data = map ?g [0..<length data]"
    using enumerate_map_upt [of 0 "\<lambda>i. data ! i" "length data"] by (simp add: map_nth)
  have dist: "distinct p"
    using perm mset_eq_imp_distinct_iff [of p "[0..<length data]"] by simp
  have pos: "?pos (p ! a) = a" if "a < length p" for a
    using dist that by (rule takeWhile_position)
  have m: "mset ?ys = mset (enumerate 0 data)"
    by (simp only: xs mset_map perm)
  have sets: "set ?ys = set (enumerate 0 data)"
    using m by (rule mset_eq_setD)
  have dys: "distinct ?ys"
    using dist by (simp add: distinct_map inj_on_def)
  have keys: "(?f k = ?f x) = (k = x)" if kin: "k \<in> set ?ys" and xin: "x \<in> set ?ys" for k x
  proof -
    obtain a where a: "a < length p" "k = ?g (p ! a)"
      using kin by (auto simp add: in_set_conv_nth)
    obtain b where b: "b < length p" "x = ?g (p ! b)"
      using xin by (auto simp add: in_set_conv_nth)
    have fk: "?f k = (block_number (data ! (p ! a)), a)"
      by (simp only: a(2) prod.case pos [OF a(1)])
    have fx: "?f x = (block_number (data ! (p ! b)), b)"
      by (simp only: b(2) prod.case pos [OF b(1)])
    show ?thesis
    proof
      assume "?f k = ?f x"
      then have "a = b" by (simp only: fk fx prod.inject)
      then show "k = x" by (simp only: a(2) b(2))
    next
      assume "k = x"
      then show "?f k = ?f x" by (simp only:)
    qed
  qed
  have "sort_key ?f (enumerate 0 data) = ?ys"
  proof (rule properties_for_sort_key)
    show "mset ?ys = mset (enumerate 0 data)" by (rule m)
    show "filter (\<lambda>x. ?f k = ?f x) ?ys = filter (\<lambda>x. ?f k = ?f x) (enumerate 0 data)"
      if k: "k \<in> set ?ys" for k
    proof -
      have "filter (\<lambda>x. ?f k = ?f x) ?ys = filter (\<lambda>x. k = x) ?ys"
        using k keys by (intro filter_cong) auto
      also have "\<dots> = [k]"
        using dys k by (rule filter_eq_distinct)
      also have "\<dots> = filter (\<lambda>x. k = x) (enumerate 0 data)"
        using k sets by (intro filter_eq_distinct [symmetric]) simp_all
      also have "\<dots> = filter (\<lambda>x. ?f k = ?f x) (enumerate 0 data)"
        using k keys sets by (intro filter_cong) auto
      finally show ?thesis .
    qed
    show "sorted (map ?f ?ys)"
    proof -
      have "map ?f ?ys ! a \<le> map ?f ?ys ! b" if "a < b" and "b < length (map ?f ?ys)" for a b
      proof -
        have "map (\<lambda>i. block_number (data ! i)) p ! a \<le> map (\<lambda>i. block_number (data ! i)) p ! b"
          using srt that by (intro sorted_nth_mono) simp_all
        then show ?thesis
          using that pos [of a] pos [of b] by (simp add: less_eq_prod_def)
      qed
      then show ?thesis
        by (simp only: sorted_iff_nth_mono_less) blast
    qed
  qed
  then show ?thesis
    by (simp add: sort_values_def comp_def)
qed

section \<open>Properties of \<open>create_lookback\<close>\<close>

lemma astype_int64_in_range: "- (2 ^ 63) \<le> b \<Longrightarrow> b < 2 ^ 63 \<Longrightarrow> astype_int64 b = b"
  by (simp add: astype_int64_def)

lemma astype_block_number_in_range:
  assumes "\<forall>t \<in> set data. - (2 ^ 63) \<le> block_number t \<and> block_number t < 2 ^ 63"
  shows "map astype_block_number data = data"
  using assms by (simp add: astype_block_number_def astype_int64_in_range map_idI)

lemma fold_lookback_step:
  "fold (lookback_step result lookback) is (ws, ids) =
     (ws @ map (\<lambda>idx. if idx = 0 then [- 42]
                 else map log_price (iloc_slice result (max 0 (int idx - lookback)) (int idx))) is,
      ids @ is)"
  by (induction "is" arbitrary: ws ids) (simp_all add: lookback_step_def Let_def)

lemma take_drop_nth_upt:
  "b \<le> length xs \<Longrightarrow> take (b - a) (drop a xs) = map (\<lambda>j. xs ! j) [a..<b]"
proof -
  assume b: "b \<le> length xs"
  have "take (b - a) [a..<length xs] = [a..<b]"
    using b by (cases "a \<le> b") (simp_all add: take_upt)
  then have "take (b - a) (drop a (map (\<lambda>j. xs ! j) [0..<length xs])) = map (\<lambda>j. xs ! j) [a..<b]"
    by (simp add: drop_map take_map)
  then show ?thesis by (simp add: map_nth)
qed

lemma iloc_slice_window:
  "idx \<le> length xs \<Longrightarrow>
   iloc_slice xs (max 0 (int idx - lookback)) (int idx) =
     map (\<lambda>j. xs ! j) [nat (max 0 (int idx - lookback))..<idx]"
  by (simp add: iloc_slice_def py_bound_def Let_def take_drop_nth_upt min_def)

lemma truncate_with_columns: "trade.truncate (with_columns t w i) = t"
  by (simp add: with_columns_def trade.truncate_def)

lemma log_prices_with_columns: "log_prices_lookback (with_columns t w i) = w"
  by (simp add: with_columns_def)

lemma contract_address_with_columns: "contract_address (with_columns t w i) = contract_address t"
  by (simp add: with_columns_def)

text \<open>The loop, as a map over the positions of the sorted rows.\<close>

lemma create_lookback_map:
  "create_lookback tie_order data lookback =
     map (\<lambda>idx. with_columns (sort_values tie_order (map astype_block_number data) ! idx)
            (if idx = 0 then [- 42]
             else map (\<lambda>j. log_price (sort_values tie_order (map astype_block_number data) ! j))
                    [nat (max 0 (int idx - lookback))..<idx]) idx)
         [0..<length data]"
proof -
  let ?r = "sort_values tie_order (map astype_block_number data)"
  have "create_lookback tie_order data lookback =
     map (\<lambda>idx. with_columns (?r ! idx)
            (if idx = 0 then [- 42]
             else map log_price (iloc_slice ?r (max 0 (int idx - lookback)) (int idx))) idx)
         [0..<length ?r]"
    by (rule nth_equalityI)
      (simp_all add: create_lookback_def Let_def fold_lookback_step)
  also have "\<dots> = map (\<lambda>idx. with_columns (?r ! idx)
            (if idx = 0 then [- 42]
             else map (\<lambda>j. log_price (?r ! j))
                    [nat (max 0 (int idx - lookback))..<idx]) idx)
         [0..<length ?r]"
    by (rule map_cong) (simp_all add: iloc_slice_window comp_def)
  finally show ?thesis by (simp add: length_sort_values)
qed

lemma length_create_lookback: "length (create_lookback tie_order data lookback) = length data"
  by (simp add: create_lookback_map)

lemma map_truncate_create_lookback:
  "map trade.truncate (create_lookback tie_order data lookback)
     = sort_values tie_order (map astype_block_number data)"
  by (rule nth_equalityI)
    (simp_all add: create_lookback_map length_sort_values truncate_with_columns)

lemma create_lookback_window:
  assumes "idx < length data"
  shows "log_prices_lookback (create_lookback tie_order data lookback ! idx) =
           (if idx = 0 then [- 42]
            else map (\<lambda>j. log_price (sort_values tie_order (map astype_block_number data) ! j))
                   [nat (max 0 (int idx - lookback))..<idx])"
  using assms by (simp add: create_lookback_map log_prices_with_columns)

lemma sort_values_distinct_in_range:
  assumes "\<forall>t \<in> set data. - (2 ^ 63) \<le> block_number t \<and> block_number t < 2 ^ 63"
    and "sorted_wrt (<) (map block_number data)"
  shows "sort_values tie_order (map astype_block_number data) = data"
  using assms by (simp add: astype_block_number_in_range sort_values_strict)




text \<open>
  Two trades with the same block number come out in either order, depending on the
  order of ties.
\<close>

lemma sort_values_ties:
  "sort_values input_order [mk_trade 5 1, mk_trade 5 2] = [mk_trade 5 1, mk_trade 5 2] \<and>
   sort_values reverse_order [mk_trade 5 1, mk_trade 5 2] = [mk_trade 5 2, mk_trade 5 1]"
  by (simp add: sort_values_def input_order_def reverse_order_def mk_trade_def)

text \<open>
  Claim C6, as stated, fails for \<open>lookback = 0\<close>: the first trade's window is the
  sentinel, of length 1.
\<close>

theorem create_lookback_length_counterexample:
  "sorted (map block_number [mk_trade 10 1]) \<and> (0::int) \<le> 0 \<and>
   \<not> int (length (log_prices_lookback (create_lookback input_order [mk_trade 10 1] 0 ! 0))) \<le> 0"
  by (simp add: create_lookback_map log_prices_with_columns)

text \<open>
  Claim C6, amended. For a group of trades and a lookback of at least 0,
  \<open>create_lookback\<close> produces one row per trade: the rows are a permutation of the
  trades (block numbers cast to \<open>int64\<close>), and are the trades in their order when the
  block numbers are 64-bit signed integers in strictly ascending order. The first
  window is the sentinel singleton \<open>[-42.0]\<close>; every later window has length
  \<open>min(idx, lookback)\<close>, so at most \<open>lookback\<close>; and every window has length at most
  \<open>lookback\<close> when \<open>lookback\<close> is at least 1.
\<close>

theorem create_lookback_one_window_per_trade:
  assumes "0 \<le> lookback"
  shows "length (create_lookback tie_order data lookback) = length data \<and>
         mset (map trade.truncate (create_lookback tie_order data lookback))
           = mset (map astype_block_number data) \<and>
         ((\<forall>t \<in> set data. - (2 ^ 63) \<le> block_number t \<and> block_number t < 2 ^ 63) \<and>
          sorted_wrt (<) (map block_number data) \<longrightarrow>
            map trade.truncate (create_lookback tie_order data lookback) = data) \<and>
         (data \<noteq> [] \<longrightarrow>
            log_prices_lookback (create_lookback tie_order data lookback ! 0) = [- 42]) \<and>
         (\<forall>idx. 0 < idx \<and> idx < length data \<longrightarrow>
            int (length (log_prices_lookback (create_lookback tie_order data lookback ! idx)))
              = min (int idx) lookback) \<and>
         (1 \<le> lookback \<longrightarrow>
            (\<forall>idx < length data.
               int (length (log_prices_lookback (create_lookback tie_order data lookback ! idx)))
                 \<le> lookback))"
proof -
  have len: "length (create_lookback tie_order data lookback) = length data"
    by (rule length_create_lookback)
  have perm: "mset (map trade.truncate (create_lookback tie_order data lookback))
                = mset (map astype_block_number data)"
    by (simp only: map_truncate_create_lookback mset_sort_values)
  have rows: "map trade.truncate (create_lookback tie_order data lookback) = data"
    if "\<forall>t \<in> set data. - (2 ^ 63) \<le> block_number t \<and> block_number t < 2 ^ 63"
      and "sorted_wrt (<) (map block_number data)"
    using that by (simp only: map_truncate_create_lookback sort_values_distinct_in_range)
  have first: "data \<noteq> [] \<longrightarrow>
      log_prices_lookback (create_lookback tie_order data lookback ! 0) = [- 42]"
    by (simp add: create_lookback_window)
  have later: "int (length (log_prices_lookback (create_lookback tie_order data lookback ! idx)))
                 = min (int idx) lookback"
    if "0 < idx" and "idx < length data" for idx
    using that assms by (simp add: create_lookback_window)
  have all: "int (length (log_prices_lookback (create_lookback tie_order data lookback ! idx)))
               \<le> lookback"
    if "1 \<le> lookback" and "idx < length data" for idx
  proof (cases "idx = 0")
    case True
    then show ?thesis
      using that by (simp add: create_lookback_window)
  next
    case False
    then show ?thesis using later [of idx] that by simp
  qed
  show ?thesis using len perm rows first later all by blast
qed

theorem create_lookback_one_window_per_trade_witness:
  "(0::int) \<le> 1 \<and>
   - (2 ^ 63) \<le> (10::int) \<and> (12::int) < 2 ^ 63 \<and>
   sorted_wrt (<) (map block_number [mk_trade 10 1, mk_trade 11 2, mk_trade 12 3]) \<and>
   map trade.truncate (create_lookback reverse_order [mk_trade 10 1, mk_trade 11 2, mk_trade 12 3] 1)
     = [mk_trade 10 1, mk_trade 11 2, mk_trade 12 3] \<and>
   log_prices_lookback
     (create_lookback reverse_order [mk_trade 10 1, mk_trade 11 2, mk_trade 12 3] 1 ! 0) = [- 42] \<and>
   int (length (log_prices_lookback
     (create_lookback reverse_order [mk_trade 10 1, mk_trade 11 2, mk_trade 12 3] 1 ! 2))) = 1"
  using create_lookback_one_window_per_trade
    [of 1 reverse_order "[mk_trade 10 1, mk_trade 11 2, mk_trade 12 3]"]
  by (simp add: mk_trade_def)

section \<open>Properties of \<open>compute_new_quantile\<close>\<close>

text \<open>
  Claim C5, as stated, fails when the bounds are inverted: with
  \<open>pct_target_min = 1\<close> and \<open>pct_target_max = 0\<close> the result is 0, which is not in the
  (empty) interval from 1 to 0.
\<close>

theorem compute_new_quantile_range_counterexample:
  "compute_new_quantile 0 0 0 1 1 0 = 0 \<and>
   \<not> (1 \<le> compute_new_quantile 0 0 0 1 1 0 \<and> compute_new_quantile 0 0 0 1 1 0 \<le> 0)"
  by (simp add: compute_new_quantile_def)

text \<open>
  Claim C5, amended. When \<open>pct_target_min \<le> pct_target_max\<close>, \<open>compute_new_quantile\<close>
  returns \<open>q_curr + speed * (q_target - q_obs)\<close> clamped to the interval from
  \<open>pct_target_min\<close> to \<open>pct_target_max\<close>, and its result lies in that interval.
\<close>

theorem compute_new_quantile_clamp:
  assumes "pct_target_min \<le> pct_target_max"
  shows "compute_new_quantile q_curr q_target q_obs speed pct_target_min pct_target_max
           = spec_clamp (q_curr + speed * (q_target - q_obs)) pct_target_min pct_target_max \<and>
         pct_target_min
           \<le> compute_new_quantile q_curr q_target q_obs speed pct_target_min pct_target_max \<and>
         compute_new_quantile q_curr q_target q_obs speed pct_target_min pct_target_max
           \<le> pct_target_max"
  using assms by (simp add: compute_new_quantile_def spec_clamp_def min_def max_def)

theorem compute_new_quantile_clamp_witness:
  "PCT_TARGET_MIN \<le> PCT_TARGET_MAX \<and>
   compute_new_quantile PCT_TARGET PCT_TARGET 1 SPEED PCT_TARGET_MIN PCT_TARGET_MAX
     = PCT_TARGET_MIN \<and>
   spec_clamp (PCT_TARGET + SPEED * (PCT_TARGET - 1)) PCT_TARGET_MIN PCT_TARGET_MAX
     = PCT_TARGET_MIN"
  using compute_new_quantile_clamp [of PCT_TARGET_MIN PCT_TARGET_MAX PCT_TARGET PCT_TARGET 1 SPEED]
  by (simp add: PCT_TARGET_MIN_def PCT_TARGET_MAX_def PCT_TARGET_def SPEED_def spec_clamp_def)

text \<open>
  Claim C9. For a positive speed and all other arguments fixed, a larger observed
  quantile never gives a larger adjusted quantile.
\<close>

theorem compute_new_quantile_antimono:
  assumes "0 < speed" and "q_obs1 \<le> q_obs2"
  shows "compute_new_quantile q_curr q_target q_obs2 speed pct_target_min pct_target_max
           \<le> compute_new_quantile q_curr q_target q_obs1 speed pct_target_min pct_target_max"
proof -
  have "speed * (q_target - q_obs2) \<le> speed * (q_target - q_obs1)"
    using assms by (simp add: mult_left_mono)
  then have "q_curr + speed * (q_target - q_obs2) \<le> q_curr + speed * (q_target - q_obs1)"
    by simp
  then show ?thesis
    unfolding compute_new_quantile_def by (intro min.mono max.mono order_refl)
qed

theorem compute_new_quantile_antimono_witness:
  "(0::real) < 1 / 2 \<and> (0::real) \<le> 1 / 20 \<and>
   compute_new_quantile (1 / 20) (1 / 20) (1 / 20) (1 / 2) (2 / 100) (1 / 10)
     \<le> compute_new_quantile (1 / 20) (1 / 20) 0 (1 / 2) (2 / 100) (1 / 10) \<and>
   compute_new_quantile (1 / 20) (1 / 20) (1 / 20) (1 / 2) (2 / 100) (1 / 10) = 1 / 20 \<and>
   compute_new_quantile (1 / 20) (1 / 20) 0 (1 / 2) (2 / 100) (1 / 10) = 3 / 40"
  using compute_new_quantile_antimono [of "1 / 2" 0 "1 / 20" "1 / 20" "1 / 20" "2 / 100" "1 / 10"]
  by (simp add: compute_new_quantile_def)

text \<open>
  Claim C10. When \<open>pct_target_min > pct_target_max\<close> the result is \<open>pct_target_max\<close>,
  whatever the other arguments: the upper bound is applied last.
\<close>

theorem compute_new_quantile_inverted_bounds:
  assumes "pct_target_max < pct_target_min"
  shows "compute_new_quantile q_curr q_target q_obs speed pct_target_min pct_target_max
           = pct_target_max"
  using assms by (simp add: compute_new_quantile_def min_def max_def)

theorem compute_new_quantile_inverted_bounds_witness:
  "(1 / 10 :: real) < 1 / 2 \<and>
   compute_new_quantile (1 / 20) (1 / 20) 1 (1 / 2) (1 / 2) (1 / 10) = 1 / 10"
  using compute_new_quantile_inverted_bounds [of "1 / 10" "1 / 2" "1 / 20" "1 / 20" 1 "1 / 2"]
  by simp

section \<open>Properties of \<open>compute_quantile\<close>\<close>

text \<open>
  Claim C8, as stated, fails: on an array of missing values only, with a valid
  quantile, \<open>compute_quantile\<close> returns \<open>nan\<close>; it raises nothing.
\<close>

theorem compute_quantile_empty_counterexample:
  "dropna [NaN, NaN] = [] \<and> compute_quantile [NaN, NaN] (1 / 2) = Inr NaN"
  by (simp add: compute_quantile_def dropna_def)

text \<open>
  Claim C8, amended. When the array is empty after dropping the missing values and the
  quantile lies in \<open>[0, 1]\<close>, \<open>compute_quantile\<close> returns \<open>nan\<close> and raises no error.
\<close>

theorem compute_quantile_empty:
  assumes "dropna array = []" and "0 \<le> quantile" and "quantile \<le> 1"
  shows "compute_quantile array quantile = Inr NaN"
  using assms by (simp add: compute_quantile_def)

theorem compute_quantile_empty_witness:
  "dropna [NaN] = [] \<and> (0::real) \<le> 1 / 20 \<and> (1 / 20 :: real) \<le> 1 \<and>
   compute_quantile [NaN] (1 / 20) = Inr NaN"
  using compute_quantile_empty [of "[NaN]" "1 / 20"]
  by (simp add: dropna_def)

section \<open>Properties of double arithmetic\<close>

lemma round_even_of_int: "round_even (of_int n) = n"
  by (simp add: round_even_def)

lemma round_even_lower: "of_int a \<le> r \<Longrightarrow> a \<le> round_even r"
proof -
  assume "of_int a \<le> r"
  then have "a \<le> \<lfloor>r\<rfloor>" by (simp add: le_floor_iff)
  then show ?thesis by (simp add: round_even_def Let_def)
qed

lemma round_even_upper: "r \<le> of_int b \<Longrightarrow> round_even r \<le> b"
proof -
  assume b: "r \<le> of_int b"
  then have fl: "\<lfloor>r\<rfloor> \<le> b" by (simp add: floor_le_iff)
  show ?thesis
  proof (cases "r = of_int \<lfloor>r\<rfloor>")
    case True
    then have "r - of_int \<lfloor>r\<rfloor> < 1 / 2" by simp
    then show ?thesis using fl by (simp add: round_even_def Let_def)
  next
    case False
    then have "of_int \<lfloor>r\<rfloor> < r" using of_int_floor_le [of r] by linarith
    then have "of_int \<lfloor>r\<rfloor> < (of_int b :: real)" using b by linarith
    then have "\<lfloor>r\<rfloor> + 1 \<le> b" by simp
    then show ?thesis by (simp add: round_even_def Let_def)
  qed
qed

lemma float64_zero: "float64 0 = 0"
  by (simp add: float64_def)

lemma two_powr_diff:
  "e' \<le> e \<Longrightarrow> (2::real) powr of_int e = 2 ^ nat (e - e') * 2 powr of_int e'"
proof -
  assume "e' \<le> e"
  then have "(2::real) powr of_int e = 2 powr (real (nat (e - e')) + of_int e')"
    by simp
  also have "\<dots> = 2 powr real (nat (e - e')) * 2 powr of_int e'"
    by (rule powr_add)
  also have "\<dots> = 2 ^ nat (e - e') * 2 powr of_int e'"
    by (simp add: powr_realpow)
  finally show ?thesis .
qed

text \<open>An integer of magnitude below \<open>2^53\<close> times a power of two is a double.\<close>

lemma float64_exact:
  assumes x: "x = of_int n * 2 powr of_int e" and e: "- 1074 \<le> e" and n: "\<bar>n\<bar> < 2 ^ 53"
  shows "float64 x = x"
proof (cases "x = 0")
  case True
  then show ?thesis by (simp add: float64_zero)
next
  case False
  define e' where "e' = max (\<lfloor>log 2 \<bar>x\<bar>\<rfloor> - 52) (- 1074)"
  have "\<bar>x\<bar> = of_int \<bar>n\<bar> * 2 powr of_int e"
    by (simp add: x abs_mult)
  also have "\<dots> < 2 ^ 53 * 2 powr of_int e"
  proof -
    have "(of_int \<bar>n\<bar> :: real) < of_int (2 ^ 53)" using n by (simp only: of_int_less_iff)
    then show ?thesis by simp
  qed
  also have "\<dots> = 2 powr of_int (53 + e)"
    by (simp add: powr_add powr_realpow [symmetric])
  finally have "\<bar>x\<bar> < 2 powr of_int (53 + e)" .
  then have "log 2 \<bar>x\<bar> < of_int (53 + e)"
    using False by (simp add: log_less_iff)
  then have "\<lfloor>log 2 \<bar>x\<bar>\<rfloor> < 53 + e"
    by (simp add: floor_less_iff)
  then have le: "e' \<le> e"
    using e by (simp add: e'_def)
  have "x / 2 powr of_int e' = of_int (n * 2 ^ nat (e - e'))"
    by (simp add: x two_powr_diff [OF le])
  then have "round_even (x / 2 powr of_int e') = n * 2 ^ nat (e - e')"
    by (simp only: round_even_of_int)
  then have "float64 x = of_int (n * 2 ^ nat (e - e')) * 2 powr of_int e'"
    using False by (simp add: float64_def e'_def Let_def)
  also have "\<dots> = x"
    by (simp add: x two_powr_diff [OF le])
  finally show ?thesis .
qed

text \<open>Every rounded value is such a number.\<close>

lemma float64_repr:
  "\<exists>n e. float64 x = of_int n * 2 powr of_int e \<and> - 1074 \<le> e \<and> \<bar>n\<bar> < 2 ^ 53"
proof (cases "x = 0")
  case True
  have "float64 x = of_int 0 * 2 powr of_int 0 \<and> - 1074 \<le> (0::int) \<and> \<bar>0::int\<bar> < 2 ^ 53"
    using True by (simp add: float64_zero)
  then show ?thesis by blast
next
  case False
  define E where "E = \<lfloor>log 2 \<bar>x\<bar>\<rfloor>"
  define e' where "e' = max (E - 52) (- 1074)"
  define r where "r = x / 2 powr of_int e'"
  define n where "n = round_even r"
  have fx: "float64 x = of_int n * 2 powr of_int e'"
    using False by (simp add: float64_def Let_def n_def r_def e'_def E_def)
  have "log 2 \<bar>x\<bar> < of_int (E + 1)"
    unfolding E_def by linarith
  then have "\<bar>x\<bar> < 2 powr of_int (E + 1)"
    using False by (simp add: log_less_iff)
  also have "\<dots> \<le> 2 powr of_int (53 + e')"
    by (simp add: e'_def)
  also have "\<dots> = 2 ^ 53 * 2 powr of_int e'"
    by (simp add: powr_add powr_realpow [symmetric])
  finally have "\<bar>x\<bar> / 2 powr of_int e' < 2 ^ 53"
    by (simp add: divide_less_eq)
  then have "\<bar>r\<bar> < 2 ^ 53"
    by (simp add: r_def)
  then have "of_int (- (2 ^ 53)) \<le> r" and "r \<le> of_int (2 ^ 53)"
    by simp_all
  then have "- (2 ^ 53) \<le> n" and "n \<le> 2 ^ 53"
    unfolding n_def by (simp_all only: round_even_lower round_even_upper)
  then consider "\<bar>n\<bar> < 2 ^ 53" | "n = 2 ^ 53" | "n = - (2 ^ 53)"
    by linarith
  then show ?thesis
  proof cases
    case 1
    then have "float64 x = of_int n * 2 powr of_int e' \<and> - 1074 \<le> e' \<and> \<bar>n\<bar> < 2 ^ 53"
      using fx by (simp add: e'_def)
    then show ?thesis by blast
  next
    case 2
    have "float64 x = of_int (2 ^ 52) * 2 powr of_int (e' + 1) \<and> - 1074 \<le> e' + 1 \<and>
          \<bar>2 ^ 52 :: int\<bar> < 2 ^ 53"
      using fx 2 by (simp add: e'_def powr_add)
    then show ?thesis by blast
  next
    case 3
    have "float64 x = of_int (- (2 ^ 52)) * 2 powr of_int (e' + 1) \<and> - 1074 \<le> e' + 1 \<and>
          \<bar>- (2 ^ 52) :: int\<bar> < 2 ^ 53"
      using fx 3 by (simp add: e'_def powr_add)
    then show ?thesis by blast
  qed
qed

lemma float64_idem: "float64 (float64 x) = float64 x"
proof -
  obtain n e where "float64 x = of_int n * 2 powr of_int e" "- 1074 \<le> e" "\<bar>n\<bar> < 2 ^ 53"
    using float64_repr by blast
  then show ?thesis by (rule float64_exact)
qed

lemma float64_twice:
  assumes "float64 c = c"
  shows "float64 (c + c) = c + c"
proof -
  obtain n e where r: "float64 c = of_int n * 2 powr of_int e" "- 1074 \<le> e" "\<bar>n\<bar> < 2 ^ 53"
    using float64_repr by blast
  have "c + c = of_int n * 2 powr of_int (e + 1)"
    using r(1) assms by (simp add: powr_add)
  moreover have "- 1074 \<le> e + 1" using r(2) by simp
  ultimately show ?thesis using r(3) by (rule float64_exact)
qed

text \<open>The rounding of a value whose binary exponent is known.\<close>

lemma float64_eval:
  assumes "2 powr of_int e \<le> \<bar>x\<bar>" and "\<bar>x\<bar> < 2 powr of_int (e + 1)" and "- 1022 \<le> e"
  shows "float64 x = of_int (round_even (x / 2 powr of_int (e - 52))) * 2 powr of_int (e - 52)"
proof -
  have nz: "x \<noteq> 0"
    using assms(1) by (auto simp add: not_le)
  have "of_int e \<le> log 2 \<bar>x\<bar>" and "log 2 \<bar>x\<bar> < of_int (e + 1)"
    using assms(1,2) nz by (simp_all add: le_log_iff log_less_iff)
  then have "\<lfloor>log 2 \<bar>x\<bar>\<rfloor> = e"
    by (simp add: floor_eq_iff)
  moreover have "max (e - 52) (- 1074) = e - 52"
    using assms(3) by simp
  ultimately show ?thesis
    using nz by (simp add: float64_def Let_def del: max.absorb1 max.absorb2 max.absorb3 max.absorb4)
qed

lemma float64_eval_ge1:
  assumes "2 ^ k \<le> \<bar>x\<bar>" and "\<bar>x\<bar> < 2 * 2 ^ k" and "k \<le> 52"
  shows "float64 x = of_int (round_even (x * 2 ^ (52 - k))) / 2 ^ (52 - k)"
proof -
  have "int k - 52 = - int (52 - k)"
    using assms(3) by simp
  then have "(2::real) powr of_int (int k - 52) = 2 powr (- real (52 - k))"
    by (simp only: of_int_minus of_int_of_nat_eq)
  also have "\<dots> = 1 / 2 ^ (52 - k)"
    by (simp only: powr_minus powr_realpow zero_less_numeral inverse_eq_divide)
  finally have p: "(2::real) powr of_int (int k - 52) = 1 / 2 ^ (52 - k)" .
  have "float64 x = of_int (round_even (x / 2 powr of_int (int k - 52)))
          * 2 powr of_int (int k - 52)"
    using assms(1,2) by (intro float64_eval) (simp_all add: powr_realpow powr_add)
  then show ?thesis by (simp only: p) simp
qed

lemma float64_eval_lt1:
  assumes "1 \<le> \<bar>x\<bar> * 2 ^ k" and "\<bar>x\<bar> * 2 ^ k < 2" and "k \<le> 1022"
  shows "float64 x = of_int (round_even (x * 2 ^ (k + 52))) / 2 ^ (k + 52)"
proof -
  have q: "(2::real) powr of_int (- int k) = 1 / 2 ^ k"
    by (simp add: powr_minus powr_realpow divide_inverse)
  have "- int k - 52 = - int (k + 52)"
    by simp
  then have "(2::real) powr of_int (- int k - 52) = 2 powr (- real (k + 52))"
    by (simp only: of_int_minus of_int_of_nat_eq)
  also have "\<dots> = 1 / 2 ^ (k + 52)"
    by (simp only: powr_minus powr_realpow zero_less_numeral inverse_eq_divide)
  finally have p: "(2::real) powr of_int (- int k - 52) = 1 / 2 ^ (k + 52)" .
  have "2 powr of_int (- int k) \<le> \<bar>x\<bar>"
    using assms(1) by (simp only: q) (simp add: divide_le_eq)
  moreover have "\<bar>x\<bar> < 2 powr of_int (- int k + 1)"
  proof -
    have "(2::real) powr (of_int (- int k) + 1) = 2 powr of_int (- int k) * 2 powr 1"
      by (rule powr_add)
    then have "(2::real) powr of_int (- int k + 1) = 2 powr of_int (- int k) * 2"
      by (simp only: of_int_add of_int_1 powr_one zero_le_numeral)
    then show ?thesis using assms(2) by (simp only: q) (simp add: less_divide_eq)
  qed
  moreover have "- 1022 \<le> - int k" using assms(3) by simp
  ultimately have "float64 x = of_int (round_even (x / 2 powr of_int (- int k - 52)))
          * 2 powr of_int (- int k - 52)"
    by (rule float64_eval)
  then show ?thesis by (simp only: p) simp
qed

text \<open>Small integers and their halves are doubles.\<close>

lemma float64_numeral: "\<bar>numeral w :: int\<bar> < 2 ^ 53 \<Longrightarrow> float64 (numeral w) = numeral w"
  using float64_exact [of "numeral w" "numeral w" 0] by simp

lemma float64_neg_numeral:
  "\<bar>numeral w :: int\<bar> < 2 ^ 53 \<Longrightarrow> float64 (- numeral w) = - numeral w"
  using float64_exact [of "- numeral w" "- numeral w" 0] by simp

lemma float64_one: "float64 1 = 1"
  using float64_exact [of 1 1 0] by simp

lemma float64_neg_one: "float64 (- 1) = - 1"
  using float64_exact [of "- 1" "- 1" 0] by simp

lemma float64_half: "float64 (1 / 2) = 1 / 2"
  using float64_exact [of "1 / 2" 1 "- 1"] by simp

lemma float64_halves: "\<bar>numeral w :: int\<bar> < 2 ^ 53 \<Longrightarrow> float64 (numeral w / 2) = numeral w / 2"
  using float64_exact [of "numeral w / 2" "numeral w" "- 1"] by simp

text \<open>The doubles written \<open>0.1\<close> and \<open>0.45\<close>.\<close>

lemma float64_tenth: "float64 (1 / 10) = 3602879701896397 / 36028797018963968"
  by (subst float64_eval_lt1 [where k = 4]) (simp_all add: round_even_def)

lemma float64_nine_twentieths: "float64 (9 / 20) = 8106479329266893 / 18014398509481984"
  by (subst float64_eval_lt1 [where k = 2]) (simp_all add: round_even_def)

section \<open>Order statistics and the median\<close>

text \<open>
  The element at position \<open>k\<close> of the sorted values is the \<open>k\<close>-th smallest value,
  so \<open>np.median\<close> and the MAD are the median and the MAD of the specification, in the
  arithmetic of doubles.
\<close>

lemma length_filter_sort: "length (filter P (sort xs)) = length (filter P xs)"
  by (simp add: filter_sort)

lemma length_filter_mono:
  "(\<And>x. x \<in> set xs \<Longrightarrow> P x \<Longrightarrow> Q x) \<Longrightarrow> length (filter P xs) \<le> length (filter Q xs)"
  by (induction xs) auto

lemma sorted_nth_below:
  fixes s :: "real list"
  assumes "sorted s" and "k < length s"
  shows "length (filter (\<lambda>x. x < s ! k) s) \<le> k"
proof -
  have "filter (\<lambda>x. x < s ! k) (drop k s) = []"
  proof -
    have "\<not> x < s ! k" if mem: "x \<in> set (drop k s)" for x
    proof -
      obtain i where "i < length (drop k s)" and "drop k s ! i = x"
        using mem unfolding in_set_conv_nth by blast
      then have "x = s ! (k + i)" and "k + i < length s"
        using assms(2) by auto
      then have "s ! k \<le> x"
        using assms(1) by (simp add: sorted_nth_mono)
      then show ?thesis by simp
    qed
    then show ?thesis by (simp add: filter_empty_conv)
  qed
  then have "filter (\<lambda>x. x < s ! k) s = filter (\<lambda>x. x < s ! k) (take k s)"
    using filter_append [of "\<lambda>x. x < s ! k" "take k s" "drop k s"] by simp
  then have "length (filter (\<lambda>x. x < s ! k) s) \<le> length (take k s)"
    by (simp only: length_filter_le)
  then show ?thesis by simp
qed

lemma sorted_nth_not_above:
  fixes s :: "real list"
  assumes "sorted s" and "k < length s"
  shows "k < length (filter (\<lambda>x. x \<le> s ! k) s)"
proof -
  have "filter (\<lambda>x. x \<le> s ! k) (take (Suc k) s) = take (Suc k) s"
  proof -
    have "x \<le> s ! k" if mem: "x \<in> set (take (Suc k) s)" for x
    proof -
      obtain i where "i < length (take (Suc k) s)" and "take (Suc k) s ! i = x"
        using mem unfolding in_set_conv_nth by blast
      then have "x = s ! i" and "i \<le> k"
        by auto
      then show ?thesis
        using assms by (simp add: sorted_nth_mono)
    qed
    then show ?thesis by (simp add: filter_id_conv)
  qed
  then have "filter (\<lambda>x. x \<le> s ! k) s
               = take (Suc k) s @ filter (\<lambda>x. x \<le> s ! k) (drop (Suc k) s)"
    using filter_append [of "\<lambda>x. x \<le> s ! k" "take (Suc k) s" "drop (Suc k) s"] by simp
  then have "length (filter (\<lambda>x. x \<le> s ! k) s) \<ge> length (take (Suc k) s)"
    by simp
  then show ?thesis using assms(2) by simp
qed

lemma kth_unique:
  fixes v w :: real
  assumes "length (filter (\<lambda>x. x < v) xs) \<le> k" and "k < length (filter (\<lambda>x. x \<le> v) xs)"
    and "length (filter (\<lambda>x. x < w) xs) \<le> k" and "k < length (filter (\<lambda>x. x \<le> w) xs)"
  shows "v = w"
proof (rule ccontr)
  assume "v \<noteq> w"
  then consider "v < w" | "w < v" by linarith
  then show False
  proof cases
    case 1
    then have "length (filter (\<lambda>x. x \<le> v) xs) \<le> length (filter (\<lambda>x. x < w) xs)"
      by (intro length_filter_mono) simp
    then show False using assms(2,3) by simp
  next
    case 2
    then have "length (filter (\<lambda>x. x \<le> w) xs) \<le> length (filter (\<lambda>x. x < v) xs)"
      by (intro length_filter_mono) simp
    then show False using assms(1,4) by simp
  qed
qed

lemma kth_smallest_sort:
  assumes "k < length xs"
  shows "kth_smallest xs k = sort xs ! k"
proof -
  let ?C = "\<lambda>v. length (filter (\<lambda>x. x < v) xs) \<le> k \<and> k < length (filter (\<lambda>x. x \<le> v) xs)"
  let ?v = "sort xs ! k"
  have k: "k < length (sort xs)" using assms by simp
  have C: "?C ?v"
    using sorted_nth_below [of "sort xs" k] sorted_nth_not_above [of "sort xs" k] k
    by (simp add: length_filter_sort)
  have "?v \<in> set (sort xs)" using k by (rule nth_mem)
  then have "?v \<in> set (filter ?C xs)" using C by simp
  then obtain w ws where F: "filter ?C xs = w # ws"
    by (cases "filter ?C xs") auto
  then have "w \<in> set (filter ?C xs)" by simp
  then have "?C w" by simp
  then have "w = ?v" using C kth_unique [of w xs k ?v] by blast
  then show ?thesis by (simp add: kth_smallest_def F)
qed

lemma np_median_spec: "xs \<noteq> [] \<Longrightarrow> np_median xs = spec_median float64 xs"
proof -
  assume "xs \<noteq> []"
  then have "0 < length xs" by simp
  then have "length xs div 2 < length xs"
    by simp
  moreover from this have "length xs div 2 - 1 < length xs"
    by (rule less_imp_diff_less)
  ultimately show ?thesis
    by (simp add: np_median_def spec_median_def Let_def kth_smallest_sort)
qed

lemma median_abs_deviation_spec:
  "xs \<noteq> [] \<Longrightarrow> median_abs_deviation xs = spec_mad float64 xs"
  by (simp add: median_abs_deviation_def spec_mad_def Let_def np_median_spec)

lemma remove_outliers_spec: "remove_outliers xs = spec_remove_outliers float64 xs"
  by (cases "xs = []")
    (simp_all add: remove_outliers_def spec_remove_outliers_def Let_def np_median_spec
      median_abs_deviation_spec)

section \<open>Properties of \<open>remove_outliers\<close>\<close>

lemma remove_outliers_filter:
  "remove_outliers xs =
     filter (\<lambda>x. float64 (np_median xs - float64 (3 * median_abs_deviation xs)) \<le> x \<and>
                 x \<le> float64 (np_median xs + float64 (3 * median_abs_deviation xs))) xs"
  by (simp add: remove_outliers_def Let_def)

lemma remove_outliers_singleton: "float64 x = x \<Longrightarrow> remove_outliers [x] = [x]"
  by (simp add: remove_outliers_def median_abs_deviation_def np_median_def float64_zero)

lemma sort_replicate: "sort (replicate k (c::real)) = replicate k c"
  by (rule sort_key_id_if_sorted) (simp add: sorted_replicate)

lemma np_median_replicate:
  assumes "0 < k" and "float64 c = c"
  shows "np_median (replicate k c) = c"
proof -
  have "float64 (2 * c) = 2 * c"
    using float64_twice [OF assms(2)] by (simp only: mult_2)
  then have "float64 (float64 (2 * c) / 2) = c"
    using assms(2) by simp
  then show ?thesis
    using assms(1) by (simp add: np_median_def Let_def sort_replicate)
qed

lemma median_abs_deviation_replicate:
  assumes "0 < k" and "float64 c = c"
  shows "median_abs_deviation (replicate k c) = 0"
  using assms
  by (simp add: median_abs_deviation_def Let_def np_median_replicate float64_zero)

lemma remove_outliers_replicate:
  assumes "float64 c = c"
  shows "remove_outliers (replicate k c) = replicate k c"
  using assms
  by (cases "k = 0")
    (simp_all add: remove_outliers_filter np_median_replicate median_abs_deviation_replicate
      float64_zero)

lemma remove_outliers_mad_zero:
  assumes "median_abs_deviation xs = 0"
  shows "remove_outliers xs = filter (\<lambda>x. x = float64 (np_median xs)) xs"
  using assms by (auto simp add: remove_outliers_filter float64_zero intro: filter_cong)

lemma filter_eq_replicate: "filter (\<lambda>x. x = c) xs = replicate (length (filter (\<lambda>x. x = c) xs)) c"
  by (rule replicate_length_same [symmetric]) simp

text \<open>The median of doubles is a double.\<close>

lemma float64_np_median:
  assumes "xs \<noteq> []" and "\<forall>x \<in> set xs. float64 x = x"
  shows "float64 (np_median xs) = np_median xs"
proof (cases "odd (length xs)")
  case True
  have "length xs div 2 < length (sort xs)"
    using assms(1) by simp
  then have "sort xs ! (length xs div 2) \<in> set (sort xs)"
    by (rule nth_mem)
  then show ?thesis
    using True assms(2) by (simp add: np_median_def Let_def)
next
  case False
  then show ?thesis
    by (simp add: np_median_def Let_def float64_idem)
qed

text \<open>
  The doubles \<open>0.1\<close>, \<open>0.45\<close> and \<open>1.5\<close>: the median is \<open>0.45\<close>, the rounded
  deviations are \<open>0.35\<close>, \<open>0\<close> and \<open>1.05\<close>, the MAD is \<open>0.35\<close>, and \<open>3 * 0.35\<close>
  rounds to \<open>1.0499999999999998\<close>, so that the upper bound is \<open>1.4999999999999998\<close>.
\<close>

lemma remove_outliers_rounded_bound:
  "remove_outliers [3602879701896397 / 36028797018963968, 8106479329266893 / 18014398509481984, 3 / 2]
     = [3602879701896397 / 36028797018963968, 8106479329266893 / 18014398509481984]"
proof -
  let ?a = "3602879701896397 / 36028797018963968 :: real"
  let ?b = "8106479329266893 / 18014398509481984 :: real"
  let ?c = "3 / 2 :: real"
  let ?d = "3152519739159347 / 9007199254740992 :: real"
  let ?t = "4728779608739020 / 4503599627370496 :: real"
  have med: "np_median [?a, ?b, ?c] = ?b"
    by (simp add: np_median_def)
  have da: "float64 (?a - ?b) = - ?d"
    by (subst float64_eval_lt1 [where k = 2]) (simp_all add: round_even_def)
  have dc: "float64 (?c - ?b) = 4728779608739021 / 4503599627370496"
    by (subst float64_eval_ge1 [where k = 0]) (simp_all add: round_even_def)
  have db: "float64 (?b - ?b) = 0"
    by (simp add: float64_zero)
  have "map (\<lambda>v. \<bar>float64 (v - ?b)\<bar>) [?a, ?b, ?c]
          = [\<bar>float64 (?a - ?b)\<bar>, \<bar>float64 (?b - ?b)\<bar>, \<bar>float64 (?c - ?b)\<bar>]"
    by (simp only: list.map)
  also have "\<dots> = [?d, 0, 4728779608739021 / 4503599627370496]"
    by (simp only: da db dc) simp
  finally have devs: "map (\<lambda>v. \<bar>float64 (v - ?b)\<bar>) [?a, ?b, ?c]
          = [?d, 0, 4728779608739021 / 4503599627370496]" .
  have mad: "median_abs_deviation [?a, ?b, ?c] = ?d"
    by (simp only: median_abs_deviation_def Let_def med devs) (simp add: np_median_def)
  have t: "float64 (3 * ?d) = ?t"
    by (subst float64_eval_ge1 [where k = 0]) (simp_all add: round_even_def)
  have lb: "float64 (?b - ?t) = - (5404319552844594 / 9007199254740992)"
    by (subst float64_eval_lt1 [where k = 1]) (simp_all add: round_even_def)
  have ub: "float64 (?b + ?t) = 6755399441055743 / 4503599627370496"
    by (subst float64_eval_ge1 [where k = 0]) (simp_all add: round_even_def)
  have "remove_outliers [?a, ?b, ?c]
          = filter (\<lambda>x. - (5404319552844594 / 9007199254740992) \<le> x \<and>
                        x \<le> 6755399441055743 / 4503599627370496) [?a, ?b, ?c]"
    by (simp only: remove_outliers_filter med mad t lb ub)
  also have "\<dots> = [?a, ?b]"
    by simp
  finally show ?thesis .
qed

lemma spec_remove_outliers_exact_bound:
  "spec_remove_outliers id
     [3602879701896397 / 36028797018963968, 8106479329266893 / 18014398509481984, 3 / 2]
     = [3602879701896397 / 36028797018963968, 8106479329266893 / 18014398509481984, 3 / 2]"
  by (simp add: spec_remove_outliers_def spec_mad_def spec_median_def kth_smallest_def)

text \<open>
  Claim C3, as stated, fails on the doubles \<open>0.1\<close>, \<open>0.45\<close> and \<open>1.5\<close>: in exact
  arithmetic \<open>1.5\<close> lies within \<open>median + 3 * MAD\<close> and all three values are kept, but
  the code computes the upper bound \<open>1.4999999999999998\<close> and drops \<open>1.5\<close>.
\<close>

theorem remove_outliers_exact_bounds_counterexample:
  "float64 (1 / 10) = 3602879701896397 / 36028797018963968 \<and>
   float64 (9 / 20) = 8106479329266893 / 18014398509481984 \<and>
   float64 (3 / 2) = 3 / 2 \<and>
   remove_outliers
     [3602879701896397 / 36028797018963968, 8106479329266893 / 18014398509481984, 3 / 2]
     = [3602879701896397 / 36028797018963968, 8106479329266893 / 18014398509481984] \<and>
   spec_remove_outliers id
     [3602879701896397 / 36028797018963968, 8106479329266893 / 18014398509481984, 3 / 2]
     = [3602879701896397 / 36028797018963968, 8106479329266893 / 18014398509481984, 3 / 2]"
  by (simp only: float64_tenth float64_nine_twentieths remove_outliers_rounded_bound
      spec_remove_outliers_exact_bound)
    (simp add: float64_halves)

text \<open>
  Claim C3, amended. \<open>remove_outliers\<close> returns the values of its input that lie
  between the bounds, bounds included, in their order, where every operation is rounded
  to a double: the median is the middle value, or the rounded mean of the two middle
  ones; the MAD is the median of the absolute values of the rounded deviations from the
  median; the bounds are the roundings of \<open>median - fl(3 * MAD)\<close> and of
  \<open>median + fl(3 * MAD)\<close>. On an input of doubles whose MAD is 0 the values equal to
  the median survive and no other; a single double is returned unchanged.
\<close>

theorem remove_outliers_double_bounds:
  "remove_outliers xs = spec_remove_outliers float64 xs \<and>
   subseq (remove_outliers xs) xs \<and>
   ((\<forall>x \<in> set xs. float64 x = x) \<and> spec_mad float64 xs = 0 \<longrightarrow>
      remove_outliers xs = filter (\<lambda>x. x = spec_median float64 xs) xs) \<and>
   (float64 x = x \<longrightarrow> remove_outliers [x] = [x])"
proof -
  have "subseq (remove_outliers xs) xs"
    by (simp add: remove_outliers_filter)
  moreover have "remove_outliers xs = filter (\<lambda>x. x = spec_median float64 xs) xs"
    if d: "\<forall>x \<in> set xs. float64 x = x" and z: "spec_mad float64 xs = 0"
  proof (cases "xs = []")
    case True
    then show ?thesis by (simp add: remove_outliers_def)
  next
    case False
    then have "median_abs_deviation xs = 0"
      using z by (simp add: median_abs_deviation_spec)
    then have "remove_outliers xs = filter (\<lambda>x. x = float64 (np_median xs)) xs"
      by (rule remove_outliers_mad_zero)
    then show ?thesis
      using False d by (simp add: float64_np_median np_median_spec [symmetric])
  qed
  ultimately show ?thesis
    using remove_outliers_spec [of xs] remove_outliers_singleton [of x] by blast
qed

theorem remove_outliers_double_bounds_witness:
  "float64 1 = 1 \<and> float64 5 = 5 \<and> spec_mad float64 [1, 1, 5, 1] = 0 \<and>
   spec_median float64 [1, 1, 5, 1] = 1 \<and>
   remove_outliers [1, 1, 5, 1] = [1, 1, 1] \<and> float64 7 = 7 \<and> remove_outliers [7] = [7]"
  using remove_outliers_double_bounds [of "[1, 1, 5, 1]" 7]
  by (simp add: spec_remove_outliers_def spec_mad_def spec_median_def kth_smallest_def
      float64_zero float64_one float64_numeral)

lemma remove_outliers_first_pass: "remove_outliers [0, 2, 2, 3, 9] = [0, 2, 2, 3]"
  by (simp add: remove_outliers_def median_abs_deviation_def np_median_def
      float64_zero float64_one float64_neg_one float64_numeral float64_neg_numeral)

lemma remove_outliers_second_pass: "remove_outliers [0, 2, 2, 3] = [2, 2, 3]"
  by (simp add: remove_outliers_def median_abs_deviation_def np_median_def
      float64_zero float64_one float64_neg_one float64_numeral float64_neg_numeral
      float64_half float64_halves)

text \<open>
  Claim C4, as stated, fails: on \<open>[0, 2, 2, 3, 9]\<close> the first pass removes 9 (median 2,
  MAD 1), and the second pass removes 0 as well (median 2, MAD 1/2).
\<close>

theorem remove_outliers_idempotent_counterexample:
  "remove_outliers [0, 2, 2, 3, 9] = [0, 2, 2, 3] \<and>
   remove_outliers (remove_outliers [0, 2, 2, 3, 9]) = [2, 2, 3] \<and>
   remove_outliers (remove_outliers [0, 2, 2, 3, 9]) \<noteq> remove_outliers [0, 2, 2, 3, 9]"
  by (simp add: remove_outliers_first_pass remove_outliers_second_pass)

text \<open>
  Claim C4, amended. A second pass of \<open>remove_outliers\<close> returns values of the first
  pass's result, in their order (it may remove more); the two passes agree when the
  MAD of the input is 0.
\<close>

theorem remove_outliers_twice:
  "subseq (remove_outliers (remove_outliers xs)) (remove_outliers xs) \<and>
   (median_abs_deviation xs = 0 \<longrightarrow>
      remove_outliers (remove_outliers xs) = remove_outliers xs)"
proof -
  have "subseq (remove_outliers (remove_outliers xs)) (remove_outliers xs)"
    by (simp add: remove_outliers_filter [of "remove_outliers xs"])
  moreover have "remove_outliers (remove_outliers xs) = remove_outliers xs"
    if "median_abs_deviation xs = 0"
  proof -
    let ?c = "float64 (np_median xs)"
    have "remove_outliers xs = replicate (length (filter (\<lambda>x. x = ?c) xs)) ?c"
      using remove_outliers_mad_zero [OF that] filter_eq_replicate [of ?c xs] by simp
    moreover have "float64 ?c = ?c"
      by (rule float64_idem)
    ultimately show ?thesis
      using remove_outliers_replicate by metis
  qed
  ultimately show ?thesis by blast
qed

theorem remove_outliers_twice_witness:
  "median_abs_deviation [1, 1, 5, 1] = 0 \<and>
   remove_outliers (remove_outliers [1, 1, 5, 1]) = remove_outliers [1, 1, 5, 1] \<and>
   remove_outliers [1, 1, 5, 1] = [1, 1, 1]"
  using remove_outliers_twice [of "[1, 1, 5, 1]"]
  by (simp add: remove_outliers_def median_abs_deviation_def np_median_def
      float64_zero float64_one float64_numeral)

section \<open>Properties of the orchestrator\<close>

lemma quantile_linear_singleton: "quantile_linear [v] q = v"
  by (simp add: quantile_linear_def)

lemma compute_quantile_singleton:
  "0 \<le> q \<Longrightarrow> q \<le> 1 \<Longrightarrow> compute_quantile [Num v] q = Inr (Num v)"
  by (simp add: compute_quantile_def dropna_def quantile_linear_singleton)

lemma create_lookback_singleton:
  "create_lookback tie_order [t] lookback = [with_columns (astype_block_number t) [- 42] 0]"
  by (simp add: create_lookback_map sort_values_def)

lemma quantile_adj_range:
  "0 \<le> compute_new_quantile PCT_TARGET PCT_TARGET q_obs SPEED PCT_TARGET_MIN PCT_TARGET_MAX \<and>
   compute_new_quantile PCT_TARGET PCT_TARGET q_obs SPEED PCT_TARGET_MIN PCT_TARGET_MAX \<le> 1"
  by (simp add: compute_new_quantile_def PCT_TARGET_MIN_def PCT_TARGET_MAX_def min_def max_def)

lemma float64_sentinel: "float64 (- 42) = - 42"
  by (simp add: float64_neg_numeral)

text \<open>
  A collection with a single trade: its window is the sentinel, which survives outlier
  removal and is the value of every quantile, so the estimate is \<open>exp(-42)\<close>.
\<close>

lemma main_group_single_trade:
  "main_group tie_order [t] = Inr [(contract_address t, Num (exp (- 42)))]"
proof -
  let ?row = "with_columns (astype_block_number t) [- 42] 0"
  have bt: "iloc_from [?row] (- BACKTEST) = [?row]"
    by (simp add: iloc_from_def py_bound_def BACKTEST_def)
  have window: "remove_outliers (log_prices_lookback ?row) = [- 42]"
    by (simp add: log_prices_with_columns remove_outliers_singleton float64_sentinel)
  have target: "compute_quantile [Num (- 42)] PCT_TARGET = Inr (Num (- 42))"
    by (rule compute_quantile_singleton) (simp_all add: PCT_TARGET_def)
  have adj: "compute_quantile [Num (- 42)]
               (compute_new_quantile PCT_TARGET PCT_TARGET q_obs SPEED PCT_TARGET_MIN PCT_TARGET_MAX)
             = Inr (Num (- 42))" for q_obs
    using quantile_adj_range [of q_obs] by (simp add: compute_quantile_singleton)
  have tail: "iloc_from [p] (- 1) = [p]" for p :: "lookback_trade \<times> pyfloat"
    by (simp add: iloc_from_def py_bound_def)
  have address: "contract_address ?row = contract_address t"
    by (simp add: contract_address_with_columns astype_block_number_def)
  show ?thesis
    by (simp add: main_group_def create_lookback_singleton bt window target adj Let_def tail
        np_exp_def address)
qed

lemma restrict_recent_single_trade: "restrict_recent [t] BACKTEST LOOKBACK = [t]"
  by (simp add: restrict_recent_def BACKTEST_def LOOKBACK_def)

text \<open>
  Claim C7, as stated, fails: for a table with one trade, \<open>main\<close> returns an estimate,
  \<open>exp(-42)\<close>, derived from the sentinel; no failure is reported.
\<close>

theorem main_single_trade_counterexample:
  "main input_order [mk_trade 100 0] = Inr [(''0xA'', Num (exp (- 42)))]"
  by (simp add: main_def sort_frame_def restrict_recent_single_trade main_group_single_trade
      mk_trade_def)

text \<open>
  Claim C7, amended. For a collection with exactly one trade, whatever its price, the
  steps of \<open>main\<close> on that collection, and \<open>main\<close> on a table holding that trade
  only, return normally, and the collection's floor price estimate is \<open>exp(-42)\<close>, the
  exponential of the sentinel.
\<close>

theorem main_single_trade:
  "main_group tie_order [t] = Inr [(contract_address t, Num (exp (- 42)))] \<and>
   main tie_order [t] = Inr [(contract_address t, Num (exp (- 42)))]"
  by (simp add: main_def sort_frame_def restrict_recent_single_trade main_group_single_trade)

text \<open>A table without rows ends the run with the exception.\<close>

lemma main_empty: "main tie_order [] = Inl ValueError"
  by (simp add: main_def sort_frame_def restrict_recent_def)

section \<open>The restriction to recent trades\<close>

text \<open>
  In a collection whose rows stand in strictly ascending block order, the row at
  position \<open>i\<close> of \<open>n\<close> has rank \<open>n - i\<close>, so the rows kept are the last ones.
\<close>

lemma restrict_zip_single_group:
  assumes "\<forall>u \<in> set (earlier @ rest). \<forall>v \<in> set (earlier @ rest). same_group u v"
    and "sorted_wrt (\<lambda>a b. block_number a < block_number b) (earlier @ rest)"
  shows "map fst (filter (\<lambda>(t, rank). int rank < n) (zip rest (rank_first_desc earlier rest)))
           = drop (length rest - nat (n - 1)) rest"
  using assms
proof (induction rest arbitrary: earlier)
  case Nil
  then show ?case by simp
next
  case (Cons t rest)
  have older: "\<forall>u \<in> set earlier. block_number u < block_number t"
    and newer: "\<forall>u \<in> set rest. block_number t < block_number u"
    using Cons.prems(2) by (auto simp add: sorted_wrt_append)
  have grp: "\<forall>u \<in> set rest. same_group u t"
    using Cons.prems(1) by simp
  have "filter (\<lambda>u. same_group u t \<and> block_number u > block_number t) earlier = []"
    using older by (auto simp add: filter_empty_conv)
  moreover have "filter (\<lambda>u. same_group u t \<and> block_number u > block_number t) rest = rest"
    using newer grp by (simp add: filter_id_conv)
  moreover have "filter (\<lambda>u. same_group u t \<and> block_number u = block_number t) earlier = []"
    using older by (auto simp add: filter_empty_conv)
  ultimately have head: "rank_first_desc earlier (t # rest)
      = (1 + length rest) # rank_first_desc (earlier @ [t]) rest"
    by simp
  have IH: "map fst (filter (\<lambda>(t, rank). int rank < n)
                (zip rest (rank_first_desc (earlier @ [t]) rest)))
            = drop (length rest - nat (n - 1)) rest"
    using Cons.prems by (intro Cons.IH) simp_all
  show ?case
  proof (cases "int (1 + length rest) < n")
    case True
    then have "length rest - nat (n - 1) = 0" and "Suc (length rest) - nat (n - 1) = 0"
      by simp_all
    then show ?thesis using True IH unfolding head by simp
  next
    case False
    then have "Suc (length rest) - nat (n - 1) = Suc (length rest - nat (n - 1))"
      by (simp add: Suc_diff_le nat_le_iff)
    then show ?thesis using False IH unfolding head by simp
  qed
qed

lemma restrict_recent_single_group:
  assumes "\<forall>u \<in> set g. \<forall>v \<in> set g. same_group u v"
    and "sorted_wrt (\<lambda>a b. block_number a < block_number b) g"
  shows "restrict_recent g backtest lookback
           = drop (length g - nat (backtest + lookback * 2 - 1)) g"
  unfolding restrict_recent_def
  using restrict_zip_single_group [of "[]" g] assms by simp

lemma filter_same_group:
  assumes "group_key t = k"
  shows "filter (\<lambda>u. group_key u = k \<and> same_group u t \<and> Q u) xs
           = filter (\<lambda>u. same_group u t \<and> Q u) xs"
  using assms by (auto simp add: same_group_def group_key_def intro: filter_cong)

lemma restrict_zip_filter_group:
  "map fst (filter (\<lambda>(t, rank). int rank < n)
      (zip (filter (\<lambda>u. group_key u = k) rest)
           (rank_first_desc (filter (\<lambda>u. group_key u = k) earlier)
              (filter (\<lambda>u. group_key u = k) rest))))
   = filter (\<lambda>u. group_key u = k)
       (map fst (filter (\<lambda>(t, rank). int rank < n) (zip rest (rank_first_desc earlier rest))))"
proof (induction rest arbitrary: earlier)
  case Nil
  then show ?case by simp
next
  case (Cons t rest)
  show ?case
  proof (cases "group_key t = k")
    case True
    then show ?thesis
      using Cons.IH [of "earlier @ [t]"] by (simp add: filter_same_group)
  next
    case False
    then show ?thesis
      using Cons.IH [of "earlier @ [t]"] by simp
  qed
qed

lemma restrict_recent_filter_group:
  "filter (\<lambda>u. group_key u = k) (restrict_recent df backtest lookback)
     = restrict_recent (filter (\<lambda>u. group_key u = k) df) backtest lookback"
  unfolding restrict_recent_def
  using restrict_zip_filter_group [of "backtest + lookback * 2" k df "[]"] by simp

lemma insort_key_cong_order:
  assumes "\<forall>y \<in> set ys. (f x \<le> f y) = (g x \<le> g y)"
  shows "insort_key f x ys = insort_key g x ys"
  using assms by (induction ys) simp_all

lemma sort_key_cong_order:
  assumes "\<forall>x \<in> set xs. \<forall>y \<in> set xs. (f x \<le> f y) = (g x \<le> g y)"
  shows "sort_key f xs = sort_key g xs"
  using assms
proof (induction xs)
  case Nil
  then show ?case by simp
next
  case (Cons x xs)
  have "sort_key f xs = sort_key g xs"
    using Cons by simp
  moreover have "insort_key f x (sort_key g xs) = insort_key g x (sort_key g xs)"
    using Cons.prems by (intro insort_key_cong_order) simp
  ultimately show ?case by simp
qed

lemma filter_sort_frame:
  "filter (\<lambda>u. group_key u = k) (sort_frame df)
     = sort_key block_number (filter (\<lambda>u. group_key u = k) df)"
proof -
  have "sort_key (\<lambda>t. (chain_id t, contract_address t, block_number t))
          (filter (\<lambda>u. group_key u = k) df)
        = sort_key block_number (filter (\<lambda>u. group_key u = k) df)"
    by (rule sort_key_cong_order) (auto simp add: group_key_def)
  then show ?thesis
    by (simp add: sort_frame_def filter_sort)
qed

text \<open>
  On a whole table: of a collection with distinct block numbers, the rows kept are the
  most recent \<open>backtest + 2 * lookback - 1\<close> (all of them when there are fewer).
\<close>

lemma restrict_recent_group:
  assumes "distinct (map block_number (filter (\<lambda>u. group_key u = k) df))"
  shows "filter (\<lambda>u. group_key u = k) (restrict_recent (sort_frame df) backtest lookback)
           = drop (length (filter (\<lambda>u. group_key u = k) df) - nat (backtest + lookback * 2 - 1))
               (sort_key block_number (filter (\<lambda>u. group_key u = k) df))"
proof -
  let ?g = "sort_key block_number (filter (\<lambda>u. group_key u = k) df)"
  have "distinct (map block_number ?g)"
    using assms by (simp add: distinct_map)
  then have "sorted_wrt (<) (map block_number ?g)"
    by (simp add: strict_sorted_iff)
  then have strict: "sorted_wrt (\<lambda>a b. block_number a < block_number b) ?g"
    by (simp add: sorted_wrt_map)
  have grp: "\<forall>u \<in> set ?g. \<forall>v \<in> set ?g. same_group u v"
    by (auto simp add: same_group_def group_key_def)
  have "filter (\<lambda>u. group_key u = k) (restrict_recent (sort_frame df) backtest lookback)
          = restrict_recent ?g backtest lookback"
    by (simp add: restrict_recent_filter_group filter_sort_frame)
  also have "\<dots> = drop (length ?g - nat (backtest + lookback * 2 - 1)) ?g"
    using grp strict by (rule restrict_recent_single_group)
  finally show ?thesis by simp
qed

lemma sort_frame_collection_1080: "sort_frame collection_1080 = collection_1080"
  unfolding sort_frame_def
  by (rule sort_key_id_if_sorted)
    (simp add: collection_1080_def mk_trade_def comp_def sorted_map sorted_wrt_map
      strict_sorted_iff [symmetric] sorted_wrt_mono_rel [OF _ sorted_wrt_upto])

text \<open>
  Claim C2 says that the most recent \<open>backtest + 2 * lookback\<close> trades of every
  collection are retained, here 1080. On a collection of 1080 trades, at block numbers 1
  to 1080, \<open>main\<close> retains 1079: ranks start at 1 and the comparison with
  \<open>BACKTEST + LOOKBACK * 2\<close> is strict, so the trade of rank 1080 is dropped.
\<close>

theorem restrict_recent_collection_1080:
  "length collection_1080 = 1080 \<and> BACKTEST + LOOKBACK * 2 = 1080 \<and>
   restrict_recent (sort_frame collection_1080) BACKTEST LOOKBACK = drop 1 collection_1080 \<and>
   length (restrict_recent (sort_frame collection_1080) BACKTEST LOOKBACK) = 1079"
proof -
  have len: "length collection_1080 = 1080"
    by (simp add: collection_1080_def)
  have grp: "\<forall>u \<in> set collection_1080. \<forall>v \<in> set collection_1080. same_group u v"
    by (auto simp add: collection_1080_def mk_trade_def same_group_def)
  have strict: "sorted_wrt (\<lambda>a b. block_number a < block_number b) collection_1080"
    by (simp add: collection_1080_def mk_trade_def sorted_wrt_map)
  have "restrict_recent collection_1080 BACKTEST LOOKBACK = drop 1 collection_1080"
    using restrict_recent_single_group [OF grp strict, of BACKTEST LOOKBACK]
    by (simp add: len BACKTEST_def LOOKBACK_def)
  then show ?thesis
    by (simp add: sort_frame_collection_1080 len BACKTEST_def LOOKBACK_def)
qed

end
